theory Spec2Isabelle
  imports Main "HOL-Library.Sublist"
begin

section \<open>JSON values\<close>

text \<open>
  The values that \<^verbatim>\<open>json.load\<close> produces: \<^verbatim>\<open>None\<close>, \<^verbatim>\<open>bool\<close>, \<^verbatim>\<open>int\<close>,
  \<^verbatim>\<open>float\<close>, \<^verbatim>\<open>str\<close>, \<^verbatim>\<open>list\<close> and \<^verbatim>\<open>dict\<close>. A dict keeps insertion order
  and its keys are strings, so it is an association list; the test \<^verbatim>\<open>isinstance(k, str)\<close>
  of the source is always true on such keys and has no branch here. The only things the
  program does with a float are to pass it on and to call \<^verbatim>\<open>str\<close> on it, so a float is
  carried as the text \<^verbatim>\<open>str\<close> renders for it.

  Strings of the Record and of the template are modelled over ASCII: a \<^typ>\<open>char\<close>
  below 128 is that code point, and a \<^typ>\<open>char\<close> beyond ASCII is left alone by
  \<open>upper\<close> and is not whitespace. Python's case mapping and whitespace classes for
  all code points are modelled in the section on \<^verbatim>\<open>normalize_name\<close> over all code
  points, where the properties of \<^verbatim>\<open>normalize_name\<close> itself are stated.

  An exception is a value: a function that can raise returns \<open>py_error + 'a\<close>, with
  \<open>Inl\<close> for the exception. The only exception the modelled functions can raise is the
  AttributeError of \<^verbatim>\<open>.items()\<close> and \<^verbatim>\<open>.get()\<close> on a value that is not a dict.
  The interpreter's resource limits (recursion depth, the digit limit of int to str
  conversion) are not modelled: integers are unbounded and every recursion returns.
\<close>

datatype json =
    JNull
  | JBool bool
  | JInt int
  | JFloat string
  | JStr string
  | JList "json list"
  | JObj "(string \<times> json) list"

datatype py_error = AttributeError

section \<open>String built-ins of Python used by the program\<close>

definition isspace :: "char \<Rightarrow> bool" where
  \<comment> \<open>\<^verbatim>\<open>str.isspace\<close> on one ASCII character: TAB, LF, VT, FF, CR, FS, GS, RS, US, space.\<close>
  "isspace c \<longleftrightarrow> c \<in> set [CHR 0x09, CHR 0x0A, CHR 0x0B, CHR 0x0C, CHR 0x0D,
                           CHR 0x1C, CHR 0x1D, CHR 0x1E, CHR 0x1F, CHR 0x20]"

definition upper_char :: "char \<Rightarrow> char" where
  "upper_char c =
     (let n = (of_char c :: nat)
      in if 97 \<le> n \<and> n \<le> 122 then char_of (n - 32) else c)"

definition upper :: "string \<Rightarrow> string" where
  "upper s = map upper_char s"

definition strip :: "string \<Rightarrow> string" where
  "strip s = rev (dropWhile isspace (rev (dropWhile isspace s)))"

definition startswith :: "string \<Rightarrow> string \<Rightarrow> bool" where
  "startswith s p \<longleftrightarrow> prefix p s"

definition partition_sep :: "char \<Rightarrow> string \<Rightarrow> string \<times> string \<times> string" where
  \<comment> \<open>\<^verbatim>\<open>s.partition(sep)\<close> for a one-character separator.\<close>
  "partition_sep sep s =
     (if sep \<in> set s
      then (takeWhile (\<lambda>c. c \<noteq> sep) s, [sep], drop 1 (dropWhile (\<lambda>c. c \<noteq> sep) s))
      else (s, [], []))"

subsection \<open>\<^verbatim>\<open>str\<close> and \<^verbatim>\<open>repr\<close>\<close>

definition digit_char :: "nat \<Rightarrow> char" where
  "digit_char d = char_of (48 + d)"

function nat_digits :: "nat \<Rightarrow> string" where
  "nat_digits n =
     (if n < 10 then [digit_char n] else nat_digits (n div 10) @ [digit_char (n mod 10)])"
  by pat_completeness auto
termination
  by (relation "measure id") auto

declare nat_digits.simps [simp del]

definition str_int :: "int \<Rightarrow> string" where
  "str_int i = (if i < 0 then CHR ''-'' # nat_digits (nat (- i)) else nat_digits (nat i))"

definition hex_digit :: "nat \<Rightarrow> char" where
  "hex_digit d = ''0123456789abcdef'' ! (d mod 16)"

definition repr_char :: "char \<Rightarrow> char \<Rightarrow> string" where
  \<comment> \<open>One character inside \<^verbatim>\<open>repr\<close> of a str whose surrounding quote is \<open>q\<close>.\<close>
  "repr_char q ch =
     (if ch = q \<or> ch = CHR 0x5C then [CHR 0x5C, ch]
      else if ch = CHR 0x09 then [CHR 0x5C, CHR ''t'']
      else if ch = CHR 0x0A then [CHR 0x5C, CHR ''n'']
      else if ch = CHR 0x0D then [CHR 0x5C, CHR ''r'']
      else if (of_char ch :: nat) < 32 \<or> (of_char ch :: nat) = 127
        then [CHR 0x5C, CHR ''x'', hex_digit (of_char ch div 16), hex_digit (of_char ch)]
      else [ch])"

definition repr_str :: "string \<Rightarrow> string" where
  "repr_str s =
     (let q = (if CHR 0x27 \<in> set s \<and> CHR 0x22 \<notin> set s then CHR 0x22 else CHR 0x27)
      in q # concat (map (repr_char q) s) @ [q])"

fun join :: "string \<Rightarrow> string list \<Rightarrow> string" where
  "join sep [] = []"
| "join sep [x] = x"
| "join sep (x # y # ys) = x @ sep @ join sep (y # ys)"

fun py_repr :: "json \<Rightarrow> string"
  and repr_elems :: "json list \<Rightarrow> string list"
  and repr_items :: "(string \<times> json) list \<Rightarrow> string list" where
  "py_repr JNull = ''None''"
| "py_repr (JBool b) = (if b then ''True'' else ''False'')"
| "py_repr (JInt i) = str_int i"
| "py_repr (JFloat r) = r"
| "py_repr (JStr s) = repr_str s"
| "py_repr (JList xs) = ''['' @ join '', '' (repr_elems xs) @ '']''"
| "py_repr (JObj kvs) = ''{'' @ join '', '' (repr_items kvs) @ ''}''"
| "repr_elems [] = []"
| "repr_elems (x # xs) = py_repr x # repr_elems xs"
| "repr_items [] = []"
| "repr_items ((k, v) # kvs) = (repr_str k @ '': '' @ py_repr v) # repr_items kvs"

definition py_str :: "json \<Rightarrow> string" where
  \<comment> \<open>\<^verbatim>\<open>str(value)\<close>: a str is itself, every other value prints as its \<^verbatim>\<open>repr\<close>.\<close>
  "py_str v = (case v of JStr s \<Rightarrow> s | _ \<Rightarrow> py_repr v)"

function py_replace :: "string \<Rightarrow> string \<Rightarrow> string \<Rightarrow> string" where
  \<comment> \<open>\<^verbatim>\<open>s.replace(old, new)\<close>: occurrences found from the left, not overlapping.\<close>
  "py_replace old new [] = (if old = [] then new else [])"
| "py_replace old new (c # cs) =
     (if old = [] then new @ c # py_replace old new cs
      else if prefix old (c # cs)
        then new @ py_replace old new (drop (length old) (c # cs))
      else c # py_replace old new cs)"
  by pat_completeness auto
termination
  by (relation "measure (\<lambda>(old, new, s). length s)") auto

section \<open>cds\_mapping.py\<close>

definition normalize_name :: "string \<Rightarrow> string" where
  "normalize_name s = filter (\<lambda>ch. \<not> isspace ch \<and> ch \<noteq> CHR ''_'') (strip (upper s))"

fun first_str :: "json list \<Rightarrow> string" where
  \<comment> \<open>the \<^verbatim>\<open>for item in value\<close> loop of \<^verbatim>\<open>extract_scalar_value\<close>\<close>
  "first_str [] = ''''"
| "first_str (item # rest) = (case item of JStr s \<Rightarrow> s | _ \<Rightarrow> first_str rest)"

fun extract_scalar_value :: "json \<Rightarrow> string" where
  "extract_scalar_value JNull = ''''"
| "extract_scalar_value (JList xs) = (if length xs = 0 then '''' else first_str xs)"
| "extract_scalar_value (JStr s) = py_str (JStr s)"
| "extract_scalar_value (JInt i) = py_str (JInt i)"
| "extract_scalar_value (JFloat r) = py_str (JFloat r)"
| "extract_scalar_value (JBool b) = py_str (JBool b)"
| "extract_scalar_value (JObj kvs) = py_str (JObj kvs)"

fun lookup_items :: "string \<Rightarrow> (string \<times> json) list \<Rightarrow> string option" where
  \<comment> \<open>the loop over \<^verbatim>\<open>root_obj.items()\<close> of \<^verbatim>\<open>lookup_root_field\<close>\<close>
  "lookup_items target [] = None"
| "lookup_items target ((key, val) # rest) =
     (if normalize_name key = target then Some (extract_scalar_value val)
      else lookup_items target rest)"

definition lookup_root_field :: "string \<Rightarrow> json \<Rightarrow> py_error + string option" where
  \<comment> \<open>\<^verbatim>\<open>root_obj.items()\<close> raises AttributeError on anything but a dict.\<close>
  "lookup_root_field var_str root_obj =
     (case root_obj of
        JObj kvs \<Rightarrow> Inr (lookup_items (normalize_name var_str) kvs)
      | _ \<Rightarrow> Inl AttributeError)"

fun find_person :: "string \<Rightarrow> json list \<Rightarrow> json option" where
  \<comment> \<open>the loop of \<^verbatim>\<open>find_person_by_role\<close>; \<^verbatim>\<open>person.get("Role")\<close> is \<open>map_of\<close>\<close>
  "find_person target [] = None"
| "find_person target (person # rest) =
     (case person of
        JObj kvs \<Rightarrow>
          (case map_of kvs ''Role'' of
             Some (JStr role_val) \<Rightarrow>
               if normalize_name role_val = target then Some person
               else find_person target rest
           | _ \<Rightarrow> find_person target rest)
      | _ \<Rightarrow> find_person target rest)"

definition find_person_by_role :: "json list \<Rightarrow> string \<Rightarrow> json option" where
  "find_person_by_role people_list role_token =
     find_person (normalize_name role_token) people_list"

fun search :: "string \<Rightarrow> json \<Rightarrow> string option"
  and search_items :: "string \<Rightarrow> (string \<times> json) list \<Rightarrow> string option"
  and search_list :: "string \<Rightarrow> json list \<Rightarrow> string option" where
  \<comment> \<open>the inner function \<^verbatim>\<open>_search\<close> and its two loops\<close>
  "search target (JObj kvs) = search_items target kvs"
| "search target (JList xs) = search_list target xs"
| "search target JNull = None"
| "search target (JBool b) = None"
| "search target (JInt i) = None"
| "search target (JFloat r) = None"
| "search target (JStr s) = None"
| "search_items target [] = None"
| "search_items target ((k, v) # rest) =
     (if normalize_name k = target then Some (extract_scalar_value v)
      else case search target v of
             Some found \<Rightarrow> Some found
           | None \<Rightarrow> search_items target rest)"
| "search_list target [] = None"
| "search_list target (item # rest) =
     (case search target item of
        Some found \<Rightarrow> Some found
      | None \<Rightarrow> search_list target rest)"

definition find_value_in_obj :: "json \<Rightarrow> string \<Rightarrow> string option" where
  "find_value_in_obj obj field_token = search (normalize_name field_token) obj"

definition lookup_people_field :: "json \<Rightarrow> string \<Rightarrow> string \<Rightarrow> py_error + string option" where
  \<comment> \<open>\<^verbatim>\<open>root_obj.get\<close> raises AttributeError on anything but a dict.\<close>
  "lookup_people_field root_obj role_token var_token =
     (case root_obj of
        JObj kvs \<Rightarrow>
          (case map_of kvs ''people'' of
             Some (JList people_list) \<Rightarrow>
               (case find_person_by_role people_list role_token of
                  None \<Rightarrow> Inr None
                | Some person \<Rightarrow> Inr (find_value_in_obj person var_token))
           | _ \<Rightarrow> Inr None)
      | _ \<Rightarrow> Inl AttributeError)"

definition or_empty :: "string option \<Rightarrow> string" where
  \<comment> \<open>\<^verbatim>\<open>value if value is not None else ""\<close>\<close>
  "or_empty value = (case value of Some s \<Rightarrow> s | None \<Rightarrow> '''')"

definition resolve_variable :: "string \<Rightarrow> json \<Rightarrow> py_error + string" where
  \<comment> \<open>The token is a str (the only caller passes one), so the \<^verbatim>\<open>None\<close> test is not taken.\<close>
  "resolve_variable var_str root_obj =
     (let var_clean = strip var_str in
      if var_clean = [] then Inr ''''
      else
        let var_upper = upper var_clean in
        if startswith var_upper ''PEOPLE_'' then
          (case partition_sep CHR ''_'' (drop (length ''PEOPLE_'') var_upper) of
             (role_token, sep, var_token) \<Rightarrow>
               if sep = [] then Inr ''''
               else (case lookup_people_field root_obj role_token var_token of
                       Inl e \<Rightarrow> Inl e
                     | Inr value \<Rightarrow> Inr (or_empty value)))
        else if CHR ''_'' \<notin> set var_clean then
          (case lookup_root_field var_clean root_obj of
             Inl e \<Rightarrow> Inl e
           | Inr value \<Rightarrow> Inr (or_empty value))
        else Inr '''')"

fun transform_structure :: "json \<Rightarrow> json \<Rightarrow> py_error + json"
  and transform_items :: "(string \<times> json) list \<Rightarrow> json \<Rightarrow> py_error + (string \<times> json) list"
  and transform_list :: "json list \<Rightarrow> json \<Rightarrow> py_error + json list" where
  \<comment> \<open>the two comprehensions run left to right and stop at the first exception\<close>
  "transform_structure (JObj kvs) root_obj =
     (case transform_items kvs root_obj of Inl e \<Rightarrow> Inl e | Inr kvs' \<Rightarrow> Inr (JObj kvs'))"
| "transform_structure (JList xs) root_obj =
     (case transform_list xs root_obj of Inl e \<Rightarrow> Inl e | Inr xs' \<Rightarrow> Inr (JList xs'))"
| "transform_structure (JStr s) root_obj =
     (case resolve_variable s root_obj of Inl e \<Rightarrow> Inl e | Inr s' \<Rightarrow> Inr (JStr s'))"
| "transform_structure JNull root_obj = Inr JNull"
| "transform_structure (JBool b) root_obj = Inr (JBool b)"
| "transform_structure (JInt i) root_obj = Inr (JInt i)"
| "transform_structure (JFloat r) root_obj = Inr (JFloat r)"
| "transform_items [] root_obj = Inr []"
| "transform_items ((k, v) # rest) root_obj =
     (case transform_structure v root_obj of
        Inl e \<Rightarrow> Inl e
      | Inr v' \<Rightarrow>
          (case transform_items rest root_obj of
             Inl e \<Rightarrow> Inl e
           | Inr rest' \<Rightarrow> Inr ((k, v') # rest')))"
| "transform_list [] root_obj = Inr []"
| "transform_list (item # rest) root_obj =
     (case transform_structure item root_obj of
        Inl e \<Rightarrow> Inl e
      | Inr item' \<Rightarrow>
          (case transform_list rest root_obj of
             Inl e \<Rightarrow> Inl e
           | Inr rest' \<Rightarrow> Inr (item' # rest')))"

section \<open>merge\_letterdata.py\<close>

fun escape_slashes :: "json \<Rightarrow> json"
  and escape_items :: "(string \<times> json) list \<Rightarrow> (string \<times> json) list"
  and escape_list :: "json list \<Rightarrow> json list" where
  \<comment> \<open>the dict and the list comprehension are the two helper loops\<close>
  "escape_slashes (JObj kvs) = JObj (escape_items kvs)"
| "escape_slashes (JList xs) = JList (escape_list xs)"
| "escape_slashes (JStr s) = JStr (py_replace ''/'' ''//'' s)"
| "escape_slashes JNull = JNull"
| "escape_slashes (JBool b) = JBool b"
| "escape_slashes (JInt i) = JInt i"
| "escape_slashes (JFloat r) = JFloat r"
| "escape_items [] = []"
| "escape_items ((k, v) # rest) = (k, escape_slashes v) # escape_items rest"
| "escape_list [] = []"
| "escape_list (item # rest) = escape_slashes item # escape_list rest"

section \<open>What the specification says, as definitions\<close>

fun preorder_entries :: "json \<Rightarrow> (string \<times> json) list"
  and preorder_items :: "(string \<times> json) list \<Rightarrow> (string \<times> json) list"
  and preorder_list :: "json list \<Rightarrow> (string \<times> json) list" where
  \<comment> \<open>every key/value entry of a tree in depth-first pre-order: an entry, then the
      entries inside its value, then its later siblings\<close>
  "preorder_entries (JObj kvs) = preorder_items kvs"
| "preorder_entries (JList xs) = preorder_list xs"
| "preorder_entries JNull = []"
| "preorder_entries (JBool b) = []"
| "preorder_entries (JInt i) = []"
| "preorder_entries (JFloat r) = []"
| "preorder_entries (JStr s) = []"
| "preorder_items [] = []"
| "preorder_items ((k, v) # rest) = (k, v) # preorder_entries v @ preorder_items rest"
| "preorder_list [] = []"
| "preorder_list (item # rest) = preorder_entries item @ preorder_list rest"

definition key_matches :: "string \<Rightarrow> string \<times> json \<Rightarrow> bool" where
  "key_matches field_token kv \<longleftrightarrow> normalize_name (fst kv) = normalize_name field_token"

fun keys_first_search :: "string \<Rightarrow> json \<Rightarrow> string option"
  and keys_first_values :: "string \<Rightarrow> (string \<times> json) list \<Rightarrow> string option"
  and keys_first_elems :: "string \<Rightarrow> json list \<Rightarrow> string option" where
  \<comment> \<open>the deep search as the specification words it: at an object, all direct keys
      first; the child values only when no direct key matches\<close>
  "keys_first_search field_token (JObj kvs) =
     (case find (key_matches field_token) kvs of
        Some (k, v) \<Rightarrow> Some (extract_scalar_value v)
      | None \<Rightarrow> keys_first_values field_token kvs)"
| "keys_first_search field_token (JList xs) = keys_first_elems field_token xs"
| "keys_first_search field_token JNull = None"
| "keys_first_search field_token (JBool b) = None"
| "keys_first_search field_token (JInt i) = None"
| "keys_first_search field_token (JFloat r) = None"
| "keys_first_search field_token (JStr s) = None"
| "keys_first_values field_token [] = None"
| "keys_first_values field_token ((k, v) # rest) =
     (case keys_first_search field_token v of
        Some found \<Rightarrow> Some found
      | None \<Rightarrow> keys_first_values field_token rest)"
| "keys_first_elems field_token [] = None"
| "keys_first_elems field_token (x # xs) =
     (case keys_first_search field_token x of
        Some found \<Rightarrow> Some found
      | None \<Rightarrow> keys_first_elems field_token xs)"

definition is_object :: "json \<Rightarrow> bool" where
  "is_object v = (case v of JObj kvs \<Rightarrow> True | _ \<Rightarrow> False)"

definition people_list_of :: "(string \<times> json) list \<Rightarrow> json list option" where
  \<comment> \<open>the \<^verbatim>\<open>people\<close> entry of an object when it is there and is a list\<close>
  "people_list_of kvs =
     (case map_of kvs ''people'' of Some (JList ps) \<Rightarrow> Some ps | _ \<Rightarrow> None)"

definition role_matches :: "string \<Rightarrow> json \<Rightarrow> bool" where
  \<comment> \<open>an object whose \<^verbatim>\<open>Role\<close> attribute is a string that normalizes to the target's
      normal form\<close>
  "role_matches role_token person =
     (case person of
        JObj kvs \<Rightarrow>
          (case map_of kvs ''Role'' of
             Some (JStr role_val) \<Rightarrow> normalize_name role_val = normalize_name role_token
           | _ \<Rightarrow> False)
      | _ \<Rightarrow> False)"

fun same_frame :: "(string \<Rightarrow> string \<Rightarrow> bool) \<Rightarrow> json \<Rightarrow> json \<Rightarrow> bool"
  and same_frame_items ::
    "(string \<Rightarrow> string \<Rightarrow> bool) \<Rightarrow> (string \<times> json) list \<Rightarrow> (string \<times> json) list \<Rightarrow> bool"
  and same_frame_list :: "(string \<Rightarrow> string \<Rightarrow> bool) \<Rightarrow> json list \<Rightarrow> json list \<Rightarrow> bool" where
  \<comment> \<open>\<open>same_frame leaf t out\<close>: \<open>out\<close> has the shape of \<open>t\<close> (the same keys in the same
      order, lists of the same length), each string leaf of \<open>t\<close> stands in \<open>leaf\<close> to the
      string at its place in \<open>out\<close>, and every other leaf is the same in both\<close>
  "same_frame leaf (JObj kvs) out =
     (case out of JObj kvs' \<Rightarrow> same_frame_items leaf kvs kvs' | _ \<Rightarrow> False)"
| "same_frame leaf (JList xs) out =
     (case out of JList xs' \<Rightarrow> same_frame_list leaf xs xs' | _ \<Rightarrow> False)"
| "same_frame leaf (JStr s) out = (case out of JStr s' \<Rightarrow> leaf s s' | _ \<Rightarrow> False)"
| "same_frame leaf JNull out = (out = JNull)"
| "same_frame leaf (JBool b) out = (out = JBool b)"
| "same_frame leaf (JInt i) out = (out = JInt i)"
| "same_frame leaf (JFloat r) out = (out = JFloat r)"
| "same_frame_items leaf [] kvs' = (kvs' = [])"
| "same_frame_items leaf ((k, v) # rest) kvs' =
     (case kvs' of
        [] \<Rightarrow> False
      | (k', v') # rest' \<Rightarrow> k' = k \<and> same_frame leaf v v' \<and> same_frame_items leaf rest rest')"
| "same_frame_list leaf [] xs' = (xs' = [])"
| "same_frame_list leaf (x # xs) xs' =
     (case xs' of
        [] \<Rightarrow> False
      | x' # rest' \<Rightarrow> same_frame leaf x x' \<and> same_frame_list leaf xs rest')"

section \<open>\<^verbatim>\<open>normalize_name\<close> over all code points\<close>

text \<open>
  A Python str is a sequence of Unicode code points. \<^verbatim>\<open>str.upper\<close> replaces each code
  point, independently of its neighbours, by the one to three code points that the
  interpreter's case-mapping table gives for it, and leaves a code point without a row
  alone; \<^verbatim>\<open>str.isspace\<close> and \<^verbatim>\<open>str.strip\<close> test each code point against the
  interpreter's whitespace class. The two tables belong to the interpreter, not to the
  program, so they are parameters here: \<open>tbl\<close> holds the rows of the case mapping,
  \<open>ws\<close> the whitespace code points. The functions \<open>upper\<close>, \<open>isspace\<close>, \<open>strip\<close> and
  \<open>normalize_name\<close> of the sections above are the instance at the rows for \<^verbatim>\<open>a\<close> to
  \<^verbatim>\<open>z\<close> and the ASCII whitespace (lemma \<open>normalize_name_ascii_instance\<close>).
\<close>

type_synonym codepoint = nat

type_synonym case_table = "(codepoint \<times> codepoint list) list"

definition to_upper_full :: "case_table \<Rightarrow> codepoint \<Rightarrow> codepoint list" where
  \<comment> \<open>the uppercase of one code point: its row, or the code point itself\<close>
  "to_upper_full tbl c = (case map_of tbl c of Some ds \<Rightarrow> ds | None \<Rightarrow> [c])"

definition upper_cp :: "case_table \<Rightarrow> codepoint list \<Rightarrow> codepoint list" where
  \<comment> \<open>\<^verbatim>\<open>str.upper\<close>\<close>
  "upper_cp tbl s = concat (map (to_upper_full tbl) s)"

definition isspace_cp :: "codepoint list \<Rightarrow> codepoint \<Rightarrow> bool" where
  \<comment> \<open>\<^verbatim>\<open>ch.isspace()\<close> on a string of one code point\<close>
  "isspace_cp ws c \<longleftrightarrow> c \<in> set ws"

definition strip_cp :: "codepoint list \<Rightarrow> codepoint list \<Rightarrow> codepoint list" where
  \<comment> \<open>\<^verbatim>\<open>str.strip()\<close>: leading and trailing whitespace removed\<close>
  "strip_cp ws s = rev (dropWhile (isspace_cp ws) (rev (dropWhile (isspace_cp ws) s)))"

definition normalize_name_cp ::
  "case_table \<Rightarrow> codepoint list \<Rightarrow> codepoint list \<Rightarrow> codepoint list" where
  \<comment> \<open>\<^verbatim>\<open>normalize_name\<close> of the source; \<open>0x5F\<close> is the underscore\<close>
  "normalize_name_cp tbl ws s =
     filter (\<lambda>ch. \<not> isspace_cp ws ch \<and> ch \<noteq> 0x5F) (strip_cp ws (upper_cp tbl s))"

definition upper_closed :: "case_table \<Rightarrow> bool" where
  \<comment> \<open>no code point that uppercasing produces has a row of its own: an uppercased
      code point is its own uppercase\<close>
  "upper_closed tbl = list_all (\<lambda>row. list_all (\<lambda>d. map_of tbl d = None) (snd row)) tbl"

definition ascii_case_table :: case_table where
  \<comment> \<open>the rows for \<^verbatim>\<open>a\<close> to \<^verbatim>\<open>z\<close>\<close>
  "ascii_case_table = map (\<lambda>c. (c, [c - 32])) [97..<123]"

definition ascii_whitespace :: "codepoint list" where
  "ascii_whitespace = [0x09, 0x0A, 0x0B, 0x0C, 0x0D, 0x1C, 0x1D, 0x1E, 0x1F, 0x20]"

definition latin1_case_table :: case_table where
  \<comment> \<open>the rows of Unicode's uppercase mapping for the code points below 256: the ASCII
      letters, the micro sign, the sharp s (to \<^verbatim>\<open>SS\<close>), the accented letters and the
      y with diaeresis\<close>
  "latin1_case_table =
     ascii_case_table @ [(0xB5, [0x39C]), (0xDF, [0x53, 0x53])]
     @ map (\<lambda>c. (c, [c - 32])) ([0xE0..<0xF7] @ [0xF8..<0xFF]) @ [(0xFF, [0x178])]"

definition unicode_whitespace :: "codepoint list" where
  \<comment> \<open>the code points for which \<^verbatim>\<open>str.isspace\<close> holds\<close>
  "unicode_whitespace =
     ascii_whitespace @ [0x85, 0xA0, 0x1680] @ [0x2000..<0x200B]
     @ [0x2028, 0x2029, 0x202F, 0x205F, 0x3000]"

section \<open>Properties\<close>

lemma upper_char_idem: "upper_char (upper_char c) = upper_char c"
proof -
  define n :: nat where "n = of_char c"
  show ?thesis
  proof (cases "97 \<le> n \<and> n \<le> 122")
    case True
    then have "n - 32 < 256" and "\<not> 97 \<le> n - 32"
      by arith+
    then have "upper_char (char_of (n - 32)) = char_of (n - 32)"
      by (simp add: upper_char_def Let_def)
    with True show ?thesis
      by (simp add: upper_char_def Let_def n_def)
  next
    case False
    then have "upper_char c = c"
      by (auto simp: upper_char_def Let_def n_def)
    then show ?thesis
      by simp
  qed
qed

lemma upper_idem: "upper (upper s) = upper s"
  by (simp add: upper_def upper_char_idem)

lemma strip_no_space: "\<forall>c \<in> set s. \<not> isspace c \<Longrightarrow> strip s = s"
proof -
  assume a: "\<forall>c \<in> set s. \<not> isspace c"
  have "dropWhile isspace s = s"
    using a by (cases s) auto
  moreover have "dropWhile isspace (rev s) = rev s"
    using a by (cases "rev s") (auto simp: rev_eq_Cons_iff)
  ultimately show ?thesis by (simp add: strip_def)
qed

lemma set_strip: "set (strip s) \<subseteq> set s"
proof -
  have "set (dropWhile isspace (rev (dropWhile isspace s))) \<subseteq> set (rev (dropWhile isspace s))"
    by (meson set_dropWhileD subsetI)
  also have "\<dots> \<subseteq> set s"
    by (auto dest: set_dropWhileD)
  finally show ?thesis
    by (simp add: strip_def)
qed

lemma upper_fixed: "c \<in> set (upper s) \<Longrightarrow> upper_char c = c"
  by (auto simp: upper_def upper_char_idem)

lemma normalize_name_chars:
  "c \<in> set (normalize_name s) \<Longrightarrow> upper_char c = c \<and> \<not> isspace c \<and> c \<noteq> CHR ''_''"
  using set_strip [of "upper s"] by (auto simp: normalize_name_def dest: upper_fixed)

lemma normalize_name_idem: "normalize_name (normalize_name s) = normalize_name s"
proof -
  let ?n = "normalize_name s"
  have u: "upper ?n = ?n"
    unfolding upper_def by (rule map_idI) (simp add: normalize_name_chars)
  have "strip ?n = ?n"
    by (rule strip_no_space) (simp add: normalize_name_chars)
  moreover have "filter (\<lambda>ch. \<not> isspace ch \<and> ch \<noteq> CHR ''_'') ?n = ?n"
    by (rule filter_True) (simp add: normalize_name_chars)
  ultimately show ?thesis
    using u by (simp add: normalize_name_def [of ?n])
qed

lemma to_upper_full_fixed:
  assumes "upper_closed tbl" and "d \<in> set (to_upper_full tbl c)"
  shows "to_upper_full tbl d = [d]"
proof (cases "map_of tbl c")
  case None
  with assms(2) show ?thesis
    by (simp add: to_upper_full_def)
next
  case (Some ds)
  then have "(c, ds) \<in> set tbl"
    by (rule map_of_SomeD)
  with assms(1) have "list_all (\<lambda>d. map_of tbl d = None) ds"
    by (auto simp: upper_closed_def list_all_iff)
  moreover from Some assms(2) have "d \<in> set ds"
    by (simp add: to_upper_full_def)
  ultimately have "map_of tbl d = None"
    by (simp add: list_all_iff)
  then show ?thesis
    by (simp add: to_upper_full_def)
qed

lemma upper_cp_fixed:
  "(\<And>d. d \<in> set s \<Longrightarrow> to_upper_full tbl d = [d]) \<Longrightarrow> upper_cp tbl s = s"
  by (induction s) (simp_all add: upper_cp_def)

lemma upper_cp_idem: "upper_closed tbl \<Longrightarrow> upper_cp tbl (upper_cp tbl s) = upper_cp tbl s"
  by (rule upper_cp_fixed) (auto simp: upper_cp_def dest: to_upper_full_fixed)

lemma filter_dropWhile_disjoint:
  "(\<And>x. Q x \<Longrightarrow> \<not> P x) \<Longrightarrow> filter P (dropWhile Q xs) = filter P xs"
  by (induction xs) auto

lemma filter_strip_cp:
  "filter (\<lambda>ch. \<not> isspace_cp ws ch \<and> ch \<noteq> u) (strip_cp ws s)
     = filter (\<lambda>ch. \<not> isspace_cp ws ch \<and> ch \<noteq> u) s"
proof -
  let ?P = "\<lambda>ch. \<not> isspace_cp ws ch \<and> ch \<noteq> u"
  have "filter ?P (strip_cp ws s)
      = rev (filter ?P (dropWhile (isspace_cp ws) (rev (dropWhile (isspace_cp ws) s))))"
    by (simp add: strip_cp_def rev_filter)
  also have "\<dots> = rev (filter ?P (rev (dropWhile (isspace_cp ws) s)))"
    by (simp add: filter_dropWhile_disjoint)
  also have "\<dots> = filter ?P (dropWhile (isspace_cp ws) s)"
    by (simp add: rev_filter)
  also have "\<dots> = filter ?P s"
    by (simp add: filter_dropWhile_disjoint)
  finally show ?thesis .
qed

lemma normalize_name_cp_filter:
  "normalize_name_cp tbl ws s
     = filter (\<lambda>ch. \<not> isspace_cp ws ch \<and> ch \<noteq> 0x5F) (upper_cp tbl s)"
  by (simp add: normalize_name_cp_def filter_strip_cp)

lemma normalize_name_cp_idem:
  assumes "upper_closed tbl"
  shows "normalize_name_cp tbl ws (normalize_name_cp tbl ws s) = normalize_name_cp tbl ws s"
proof -
  let ?P = "\<lambda>ch. \<not> isspace_cp ws ch \<and> ch \<noteq> 0x5F"
  let ?n = "filter ?P (upper_cp tbl s)"
  have "to_upper_full tbl d = [d]" if "d \<in> set ?n" for d
    using that assms by (auto simp: upper_cp_def dest: to_upper_full_fixed)
  then have "upper_cp tbl ?n = ?n"
    by (rule upper_cp_fixed)
  then show ?thesis
    by (simp add: normalize_name_cp_filter)
qed

lemma normalize_name_cp_upper:
  "upper_closed tbl \<Longrightarrow> normalize_name_cp tbl ws (upper_cp tbl s) = normalize_name_cp tbl ws s"
  by (simp add: normalize_name_cp_filter upper_cp_idem)

lemma normalize_name_cp_delete:
  assumes "isspace_cp ws c \<or> c = 0x5F" and "to_upper_full tbl c = [c]"
  shows "normalize_name_cp tbl ws (xs @ c # ys) = normalize_name_cp tbl ws (xs @ ys)"
proof -
  from assms(2) have "upper_cp tbl (xs @ c # ys) = upper_cp tbl xs @ c # upper_cp tbl ys"
    by (simp add: upper_cp_def)
  moreover have "upper_cp tbl (xs @ ys) = upper_cp tbl xs @ upper_cp tbl ys"
    by (simp add: upper_cp_def)
  ultimately show ?thesis
    using assms(1) by (auto simp: normalize_name_cp_filter)
qed

lemma map_of_rows:
  "map_of (map (\<lambda>c. (c, f c)) cs) n = (if n \<in> set cs then Some (f n) else None)"
  by (induction cs) auto

lemma map_of_ascii_case_table:
  "map_of ascii_case_table n = (if 97 \<le> n \<and> n \<le> 122 then Some [n - 32] else None)"
proof -
  have "map_of ascii_case_table n = (if n \<in> set [97..<123] then Some [n - 32] else None)"
    unfolding ascii_case_table_def by (rule map_of_rows)
  moreover have "n \<in> set [97..<123] \<longleftrightarrow> 97 \<le> n \<and> n \<le> 122"
    unfolding set_upt by auto
  ultimately show ?thesis
    by (simp only:)
qed

lemma to_upper_full_ascii:
  "to_upper_full ascii_case_table (of_char c) = [of_char (upper_char c)]"
proof -
  define n :: nat where "n = of_char c"
  show ?thesis
  proof (cases "97 \<le> n \<and> n \<le> 122")
    case True
    then have "n - 32 < 256"
      by arith
    then have "(of_char (char_of (n - 32)) :: nat) = n - 32"
      by simp
    moreover have "upper_char c = char_of (n - 32)"
      using True by (simp add: upper_char_def Let_def n_def)
    moreover have "to_upper_full ascii_case_table n = [n - 32]"
      using True by (simp add: to_upper_full_def map_of_ascii_case_table)
    ultimately show ?thesis
      by (simp add: n_def)
  next
    case False
    then have "upper_char c = c"
      by (auto simp: upper_char_def Let_def n_def)
    moreover have "to_upper_full ascii_case_table n = [n]"
      using False by (auto simp: to_upper_full_def map_of_ascii_case_table)
    ultimately show ?thesis
      by (simp add: n_def)
  qed
qed

lemma upper_ascii: "map of_char (upper s) = upper_cp ascii_case_table (map of_char s)"
  by (induction s) (simp_all add: upper_def upper_cp_def to_upper_full_ascii)

lemma of_char_mem: "(of_char c :: nat) \<in> set (map of_char cs) \<longleftrightarrow> c \<in> set cs"
  by (induction cs) auto

lemma isspace_ascii: "isspace_cp ascii_whitespace (of_char c) \<longleftrightarrow> isspace c"
proof -
  have "ascii_whitespace =
          map of_char [CHR 0x09, CHR 0x0A, CHR 0x0B, CHR 0x0C, CHR 0x0D,
                       CHR 0x1C, CHR 0x1D, CHR 0x1E, CHR 0x1F, CHR 0x20]"
    by (simp add: ascii_whitespace_def)
  then have "isspace_cp ascii_whitespace (of_char c) \<longleftrightarrow>
          (of_char c :: nat) \<in> set (map of_char [CHR 0x09, CHR 0x0A, CHR 0x0B, CHR 0x0C, CHR 0x0D,
                       CHR 0x1C, CHR 0x1D, CHR 0x1E, CHR 0x1F, CHR 0x20])"
    by (simp only: isspace_cp_def)
  also have "\<dots> \<longleftrightarrow> c \<in> set [CHR 0x09, CHR 0x0A, CHR 0x0B, CHR 0x0C, CHR 0x0D,
                       CHR 0x1C, CHR 0x1D, CHR 0x1E, CHR 0x1F, CHR 0x20]"
    by (rule of_char_mem)
  finally show ?thesis
    by (simp only: isspace_def)
qed

lemma strip_ascii: "map of_char (strip s) = strip_cp ascii_whitespace (map of_char s)"
proof -
  have "isspace_cp ascii_whitespace \<circ> of_char = isspace"
    by (rule ext) (simp add: isspace_ascii)
  then show ?thesis
    by (simp add: strip_def strip_cp_def dropWhile_map rev_map)
qed

lemma normalize_name_ascii_instance:
  "map of_char (normalize_name s)
     = normalize_name_cp ascii_case_table ascii_whitespace (map of_char s)"
proof -
  have "(\<lambda>ch. \<not> isspace_cp ascii_whitespace ch \<and> ch \<noteq> 0x5F) \<circ> of_char
          = (\<lambda>ch. \<not> isspace ch \<and> ch \<noteq> CHR ''_'')"
  proof (rule ext)
    fix c :: char
    have "(of_char c :: nat) = of_char CHR ''_'' \<longleftrightarrow> c = CHR ''_''"
      by (rule of_char_eq_iff)
    then have "(of_char c :: nat) = 0x5F \<longleftrightarrow> c = CHR ''_''"
      by simp
    then show "((\<lambda>ch. \<not> isspace_cp ascii_whitespace ch \<and> ch \<noteq> 0x5F) \<circ> of_char) c
          = (\<not> isspace c \<and> c \<noteq> CHR ''_'')"
      by (simp add: isspace_ascii)
  qed
  then show ?thesis
    by (simp add: normalize_name_def normalize_name_cp_def filter_map
        strip_ascii [symmetric] upper_ascii [symmetric])
qed

text \<open>
  C8. For every string of code points, whatever the whitespace class and for every
  case-mapping table in which an uppercased code point is its own uppercase
  (\<open>upper_closed\<close>, a property of the table alone, which the table of Unicode has),
  \<^verbatim>\<open>normalize_name\<close> is idempotent: normalizing a normalized name gives it back.
  The normal form of a string is the string uppercased, with every whitespace code point
  and every underscore removed, wherever they stand. So \<^verbatim>\<open>normalize_name\<close> identifies
  variants in case, whitespace and underscores: a string and its uppercased form have the
  same normal form, and so have two strings that differ by a whitespace code point or an
  underscore at any position (one that uppercasing leaves alone, as it does every
  whitespace code point and the underscore in Unicode). With the rows of Unicode's table
  for the code points below 256 and Unicode's whitespace, \<^verbatim>\<open>"First_Name"\<close> and
  \<^verbatim>\<open>" firstname "\<close> have the same normal form.
\<close>

theorem normalize_name_idempotent:
  assumes "upper_closed tbl"
  shows "normalize_name_cp tbl ws (normalize_name_cp tbl ws s) = normalize_name_cp tbl ws s
   \<and> normalize_name_cp tbl ws s
       = filter (\<lambda>ch. \<not> isspace_cp ws ch \<and> ch \<noteq> 0x5F) (upper_cp tbl s)
   \<and> normalize_name_cp tbl ws (upper_cp tbl s) = normalize_name_cp tbl ws s
   \<and> ((isspace_cp ws c \<or> c = 0x5F) \<and> to_upper_full tbl c = [c]
        \<longrightarrow> normalize_name_cp tbl ws (xs @ c # ys) = normalize_name_cp tbl ws (xs @ ys))
   \<and> normalize_name_cp latin1_case_table unicode_whitespace (map of_char ''First_Name'')
       = normalize_name_cp latin1_case_table unicode_whitespace (map of_char '' firstname '')"
proof -
  have "normalize_name_cp latin1_case_table unicode_whitespace (map of_char ''First_Name'')
       = normalize_name_cp latin1_case_table unicode_whitespace (map of_char '' firstname '')"
    by (simp add: normalize_name_cp_def strip_cp_def upper_cp_def to_upper_full_def
        isspace_cp_def latin1_case_table_def ascii_case_table_def unicode_whitespace_def
        ascii_whitespace_def)
  then show ?thesis
    using assms normalize_name_cp_idem normalize_name_cp_filter normalize_name_cp_upper
      normalize_name_cp_delete
    by blast
qed

text \<open>
  The rows of Unicode's table for the code points below 256 form a closed table. With
  them and Unicode's whitespace, the string of \<^verbatim>\<open>s\<close>, \<^verbatim>\<open>t\<close>, \<^verbatim>\<open>r\<close>, \<^verbatim>\<open>a\<close>, the
  sharp s (U+00DF), \<^verbatim>\<open>e\<close>, the no-break space (U+00A0) and \<^verbatim>\<open>1\<close> has the normal
  form \<^verbatim>\<open>STRASSE1\<close>, which is its own normal form; and the no-break space, which
  is whitespace and which uppercasing leaves alone, can be deleted between the e with
  acute (U+00E9) and \<^verbatim>\<open>_t\<close> without changing the normal form.
\<close>

theorem normalize_name_idempotent_witness:
  "upper_closed latin1_case_table
   \<and> normalize_name_cp latin1_case_table unicode_whitespace
        [0x73, 0x74, 0x72, 0x61, 0xDF, 0x65, 0xA0, 0x31]
       = [0x53, 0x54, 0x52, 0x41, 0x53, 0x53, 0x45, 0x31]
   \<and> normalize_name_cp latin1_case_table unicode_whitespace
        (normalize_name_cp latin1_case_table unicode_whitespace
           [0x73, 0x74, 0x72, 0x61, 0xDF, 0x65, 0xA0, 0x31])
       = normalize_name_cp latin1_case_table unicode_whitespace
           [0x73, 0x74, 0x72, 0x61, 0xDF, 0x65, 0xA0, 0x31]
   \<and> isspace_cp unicode_whitespace 0xA0
   \<and> to_upper_full latin1_case_table 0xA0 = [0xA0]
   \<and> normalize_name_cp latin1_case_table unicode_whitespace ([0xE9] @ 0xA0 # [0x5F, 0x74])
       = normalize_name_cp latin1_case_table unicode_whitespace ([0xE9] @ [0x5F, 0x74])"
proof -
  have h: "upper_closed latin1_case_table"
    by (simp add: upper_closed_def latin1_case_table_def ascii_case_table_def)
  have v: "normalize_name_cp latin1_case_table unicode_whitespace
        [0x73, 0x74, 0x72, 0x61, 0xDF, 0x65, 0xA0, 0x31]
       = [0x53, 0x54, 0x52, 0x41, 0x53, 0x53, 0x45, 0x31]"
    by (simp add: normalize_name_cp_def strip_cp_def upper_cp_def to_upper_full_def
        isspace_cp_def latin1_case_table_def ascii_case_table_def unicode_whitespace_def
        ascii_whitespace_def)
  have w: "isspace_cp unicode_whitespace 0xA0"
    by (simp add: isspace_cp_def unicode_whitespace_def ascii_whitespace_def)
  have r: "to_upper_full latin1_case_table 0xA0 = [0xA0]"
    by (simp add: to_upper_full_def latin1_case_table_def ascii_case_table_def)
  show ?thesis
    using h v w r
      normalize_name_idempotent
        [OF h, of unicode_whitespace "[0x73, 0x74, 0x72, 0x61, 0xDF, 0x65, 0xA0, 0x31]"
           "0xA0" "[0xE9]" "[0x5F, 0x74]"]
    by blast
qed

text \<open>
  C3. End to end: with the Record \<^verbatim>\<open>{"people":[{"Role":"Owner","Address":{"City":"Troy"}}]}\<close>
  the template \<^verbatim>\<open>{"greeting":"PEOPLE_OWNER_CITY","code":7,"flag":null}\<close> is transformed
  to \<^verbatim>\<open>{"greeting":"Troy","code":7,"flag":null}\<close>, without an exception.
\<close>

theorem transform_structure_end_to_end:
  "transform_structure
     (JObj [(''greeting'', JStr ''PEOPLE_OWNER_CITY''), (''code'', JInt 7), (''flag'', JNull)])
     (JObj [(''people'',
            JList [JObj [(''Role'', JStr ''Owner''),
                         (''Address'', JObj [(''City'', JStr ''Troy'')])]])])
   = Inr (JObj [(''greeting'', JStr ''Troy''), (''code'', JInt 7), (''flag'', JNull)])"
  by code_simp

lemma first_str_filter:
  "first_str xs = (case [s. JStr s \<leftarrow> xs] of [] \<Rightarrow> '''' | s # _ \<Rightarrow> s)"
proof (induction xs)
  case Nil
  show ?case by simp
next
  case (Cons item rest)
  then show ?case by (cases item) simp_all
qed

text \<open>
  C5. The precedence of \<^verbatim>\<open>extract_scalar_value\<close>: null gives the empty string; an empty
  list gives the empty string; any list gives its first element that is a string, and the
  empty string when it has none; a string is itself, an integer its decimal text
  (42 gives \<^verbatim>\<open>"42"\<close>), a float the text \<^verbatim>\<open>str\<close> renders, a boolean the word
  \<^verbatim>\<open>True\<close> or \<^verbatim>\<open>False\<close>. The function has no raising branch: it is a total
  function to strings.
\<close>

theorem extract_scalar_value_precedence:
  "extract_scalar_value JNull = ''''
   \<and> extract_scalar_value (JList []) = ''''
   \<and> extract_scalar_value (JList xs) = (case [s. JStr s \<leftarrow> xs] of [] \<Rightarrow> '''' | s # _ \<Rightarrow> s)
   \<and> extract_scalar_value (JList [JStr ''a'', JStr ''b'']) = ''a''
   \<and> extract_scalar_value (JList [JInt 1, JInt 2]) = ''''
   \<and> extract_scalar_value (JStr s) = s
   \<and> extract_scalar_value (JInt i) = str_int i
   \<and> extract_scalar_value (JInt 42) = ''42''
   \<and> extract_scalar_value (JFloat r) = r
   \<and> extract_scalar_value (JBool True) = ''True''
   \<and> extract_scalar_value (JBool False) = ''False''"
proof -
  have "extract_scalar_value (JList xs) = first_str xs"
    by (cases xs) simp_all
  then have "extract_scalar_value (JList xs) = (case [s. JStr s \<leftarrow> xs] of [] \<Rightarrow> '''' | s # _ \<Rightarrow> s)"
    by (simp only: first_str_filter)
  moreover have "extract_scalar_value (JInt 42) = ''42''"
    by code_simp
  ultimately show ?thesis
    by (simp add: py_str_def)
qed

lemma find_person_Cons:
  "find_person (normalize_name role_token) (p # ps) =
     (if role_matches role_token p then Some p else find_person (normalize_name role_token) ps)"
  by (cases p) (simp_all add: role_matches_def split: option.split json.split)

lemma find_person_find:
  "find_person (normalize_name role_token) ps = List.find (role_matches role_token) ps"
  by (induction ps) (simp_all add: find_person_Cons del: find_person.simps(2))

text \<open>
  C6. \<^verbatim>\<open>find_person_by_role\<close> returns the first entry of the list, in list order, that
  is an object whose \<^verbatim>\<open>Role\<close> attribute is present, is a string and normalizes to the
  normal form of the role token; entries that are not such objects are skipped; the result
  is not-found exactly when no entry matches (\<open>find\<close> is the first element that
  satisfies the predicate).
\<close>

theorem find_person_by_role_first_match:
  "find_person_by_role people_list role_token = List.find (role_matches role_token) people_list"
  by (simp add: find_person_by_role_def find_person_find)

lemma py_replace_slash:
  "py_replace ''/'' ''//'' s = concat (map (\<lambda>c. if c = CHR ''/'' then ''//'' else [c]) s)"
proof (induction s)
  case Nil
  show ?case by simp
next
  case (Cons c cs)
  show ?case
  proof (cases "c = CHR ''/''")
    case True
    have "py_replace ''/'' ''//'' (CHR ''/'' # cs) = ''//'' @ py_replace ''/'' ''//'' cs"
      by simp
    with True Cons show ?thesis by simp
  next
    case False
    with Cons show ?thesis by simp
  qed
qed

lemma escape_slashes_frame:
  "same_frame (\<lambda>s s'. s' = concat (map (\<lambda>c. if c = CHR ''/'' then ''//'' else [c]) s))
     t (escape_slashes t)"
  "same_frame_items (\<lambda>s s'. s' = concat (map (\<lambda>c. if c = CHR ''/'' then ''//'' else [c]) s))
     kvs (escape_items kvs)"
  "same_frame_list (\<lambda>s s'. s' = concat (map (\<lambda>c. if c = CHR ''/'' then ''//'' else [c]) s))
     xs (escape_list xs)"
  by (induction t and kvs and xs rule: escape_slashes_escape_items_escape_list.induct)
    (simp_all add: py_replace_slash)

text \<open>
  C9. \<^verbatim>\<open>escape_slashes\<close> keeps the frame of any JSON value: objects keep their keys, in
  order and unaltered, lists keep their length and order, every leaf that is not a string
  is unchanged, and every string leaf is replaced by the string in which each character
  \<^verbatim>\<open>/\<close> has become \<^verbatim>\<open>//\<close> and every other character is kept.
\<close>

theorem escape_slashes_doubles_every_slash:
  "same_frame (\<lambda>s s'. s' = concat (map (\<lambda>c. if c = CHR ''/'' then ''//'' else [c]) s))
     t (escape_slashes t)"
  by (rule escape_slashes_frame)

lemma resolve_variable_object:
  "\<exists>s. resolve_variable tok (JObj kvs) = Inr s"
  by (simp add: resolve_variable_def lookup_people_field_def lookup_root_field_def Let_def
      split: prod.split option.split json.split)

lemma transform_frame_object:
  "\<exists>out. transform_structure t (JObj r) = Inr out
     \<and> same_frame (\<lambda>s s'. resolve_variable s (JObj r) = Inr s') t out"
  "\<exists>out. transform_items kvs (JObj r) = Inr out
     \<and> same_frame_items (\<lambda>s s'. resolve_variable s (JObj r) = Inr s') kvs out"
  "\<exists>out. transform_list xs (JObj r) = Inr out
     \<and> same_frame_list (\<lambda>s s'. resolve_variable s (JObj r) = Inr s') xs out"
proof (induction t "JObj r" and kvs "JObj r" and xs "JObj r"
    rule: transform_structure_transform_items_transform_list.induct)
  case (3 s)
  obtain s' where "resolve_variable s (JObj r) = Inr s'"
    using resolve_variable_object by blast
  then show ?case by simp
qed auto

lemma transform_frame_any:
  "transform_structure t r = Inr out
     \<Longrightarrow> same_frame (\<lambda>s s'. resolve_variable s r = Inr s') t out"
  "transform_items kvs r = Inr kout
     \<Longrightarrow> same_frame_items (\<lambda>s s'. resolve_variable s r = Inr s') kvs kout"
  "transform_list xs r = Inr xout
     \<Longrightarrow> same_frame_list (\<lambda>s s'. resolve_variable s r = Inr s') xs xout"
  by (induction t r and kvs r and xs r arbitrary: out and kout and xout
      rule: transform_structure_transform_items_transform_list.induct)
    (auto split: sum.splits)

text \<open>
  C7, as stated for every Record, fails on a Record that is not an object: with the
  Record \<^verbatim>\<open>[]\<close> the template \<^verbatim>\<open>{"name": "Name"}\<close> has no output at all, since the
  root lookup raises AttributeError (\<^verbatim>\<open>root_obj.items()\<close> on a list).
\<close>

theorem transform_structure_raises_on_list_record:
  "transform_structure (JObj [(''name'', JStr ''Name'')]) (JList []) = Inl AttributeError"
  by code_simp

text \<open>
  C7 (amended). For every template and every Record that is an object,
  \<^verbatim>\<open>transform_structure\<close> returns an output that has the frame of the template: the same
  keys, unaltered and in order, lists of the same length, each string leaf replaced by
  what \<^verbatim>\<open>resolve_variable\<close> returns for it, every other leaf (number, boolean, null)
  unchanged. For any Record whatever, an output that is returned has that frame.
\<close>

theorem transform_structure_keeps_frame:
  "(\<exists>out. transform_structure t (JObj r) = Inr out
      \<and> same_frame (\<lambda>s s'. resolve_variable s (JObj r) = Inr s') t out)
   \<and> (transform_structure t root_obj = Inr out'
        \<longrightarrow> same_frame (\<lambda>s s'. resolve_variable s root_obj = Inr s') t out')"
  using transform_frame_object(1) transform_frame_any(1) by blast

text \<open>
  The second part at a Record that is not an object and a template whose only token
  needs no lookup: the output exists and has the template's frame.
\<close>

theorem transform_structure_keeps_frame_witness:
  "transform_structure (JObj [(''a'', JStr ''x_y''), (''n'', JList [JInt 1, JBool True])]) (JList [])
     = Inr (JObj [(''a'', JStr ''''), (''n'', JList [JInt 1, JBool True])])
   \<and> same_frame (\<lambda>s s'. resolve_variable s (JList []) = Inr s')
        (JObj [(''a'', JStr ''x_y''), (''n'', JList [JInt 1, JBool True])])
        (JObj [(''a'', JStr ''''), (''n'', JList [JInt 1, JBool True])])"
proof -
  have h: "transform_structure (JObj [(''a'', JStr ''x_y''), (''n'', JList [JInt 1, JBool True])]) (JList [])
     = Inr (JObj [(''a'', JStr ''''), (''n'', JList [JInt 1, JBool True])])"
    by code_simp
  show ?thesis
    using h transform_structure_keeps_frame
      [of "JObj [(''a'', JStr ''x_y''), (''n'', JList [JInt 1, JBool True])]" "[]" "JList []"
          "JObj [(''a'', JStr ''''), (''n'', JList [JInt 1, JBool True])]"]
    by blast
qed





text \<open>
  C2, as stated, fails on a Record that is not an object: with the Record \<^verbatim>\<open>[]\<close> the
  token \<^verbatim>\<open>Name\<close> does not resolve to the empty string, the call raises AttributeError
  (\<^verbatim>\<open>root_obj.items()\<close> on a list).
\<close>

theorem resolve_variable_raises_on_list_record:
  "resolve_variable ''Name'' (JList []) = Inl AttributeError
   \<and> resolve_variable ''Name'' (JList []) \<noteq> Inr ''''"
  by code_simp

lemma resolve_variable_no_people:
  assumes "people_list_of kvs = None"
    and "startswith (upper (strip tok)) ''PEOPLE_''"
  shows "resolve_variable tok (JObj kvs) = Inr ''''"
proof -
  have "lookup_people_field (JObj kvs) role_token var_token = Inr None" for role_token var_token
    using assms(1)
    by (simp add: lookup_people_field_def people_list_of_def split: option.splits json.splits)
  with assms(2) show ?thesis
    by (simp add: resolve_variable_def Let_def or_empty_def split: prod.split)
qed

lemma resolve_variable_not_object:
  assumes "\<not> is_object root_obj"
  shows "resolve_variable tok root_obj = Inl AttributeError
         \<or> resolve_variable tok root_obj = Inr ''''"
proof -
  have "lookup_people_field root_obj role_token var_token = Inl AttributeError"
    for role_token var_token
    using assms by (cases root_obj) (simp_all add: lookup_people_field_def is_object_def)
  moreover have "lookup_root_field var root_obj = Inl AttributeError" for var
    using assms by (cases root_obj) (simp_all add: lookup_root_field_def is_object_def)
  ultimately show ?thesis
    by (simp add: resolve_variable_def Let_def split: prod.split)
qed

text \<open>
  C2 (amended). For every token and every Record that is an object, \<^verbatim>\<open>resolve_variable\<close>
  returns a string and does not raise; when the object's \<^verbatim>\<open>people\<close> entry is absent or
  is not a list, every token that starts with \<^verbatim>\<open>PEOPLE_\<close> (trimmed and uppercased)
  resolves to the empty string. On a Record that is not an object a call either returns
  the empty string or raises AttributeError.
\<close>

theorem resolve_variable_total_on_objects:
  "(\<exists>s. resolve_variable tok (JObj kvs) = Inr s)
   \<and> (people_list_of kvs = None \<and> startswith (upper (strip tok)) ''PEOPLE_''
        \<longrightarrow> resolve_variable tok (JObj kvs) = Inr '''')
   \<and> (\<not> is_object root_obj
        \<longrightarrow> resolve_variable tok root_obj = Inl AttributeError
            \<or> resolve_variable tok root_obj = Inr '''')"
  using resolve_variable_object resolve_variable_no_people resolve_variable_not_object
  by blast

text \<open>
  An object whose \<^verbatim>\<open>people\<close> entry is a string, and the Record \<^verbatim>\<open>null\<close>.
\<close>

theorem resolve_variable_total_on_objects_witness:
  "people_list_of [(''people'', JStr ''nobody'')] = None
   \<and> startswith (upper (strip ''people_owner_city'')) ''PEOPLE_''
   \<and> resolve_variable ''people_owner_city'' (JObj [(''people'', JStr ''nobody'')]) = Inr ''''
   \<and> \<not> is_object JNull
   \<and> resolve_variable ''people_owner_city'' JNull = Inl AttributeError"
proof -
  have h1: "people_list_of [(''people'', JStr ''nobody'')] = None"
    by code_simp
  have h2: "startswith (upper (strip ''people_owner_city'')) ''PEOPLE_''"
    by code_simp
  have h3: "\<not> is_object JNull"
    by code_simp
  have h4: "resolve_variable ''people_owner_city'' JNull = Inl AttributeError"
    by code_simp
  show ?thesis
    using h1 h2 h3 h4
      resolve_variable_total_on_objects
        [of "''people_owner_city''" "[(''people'', JStr ''nobody'')]" JNull]
    by blast
qed

lemma find_append_first:
  "find P (xs @ ys) = (case find P xs of Some x \<Rightarrow> Some x | None \<Rightarrow> find P ys)"
  by (induction xs) simp_all

lemma search_preorder:
  "search (normalize_name tok) obj =
     map_option (extract_scalar_value \<circ> snd) (find (key_matches tok) (preorder_entries obj))"
  "search_items (normalize_name tok) kvs =
     map_option (extract_scalar_value \<circ> snd) (find (key_matches tok) (preorder_items kvs))"
  "search_list (normalize_name tok) xs =
     map_option (extract_scalar_value \<circ> snd) (find (key_matches tok) (preorder_list xs))"
  by (induction "normalize_name tok" obj and "normalize_name tok" kvs
        and "normalize_name tok" xs rule: search_search_items_search_list.induct)
    (auto simp: find_append_first key_matches_def split: option.splits)

lemma search_items_skip:
  assumes "list_all (\<lambda>kv. \<not> key_matches tok kv \<and> find_value_in_obj (snd kv) tok = None) pre"
  shows "search_items (normalize_name tok) (pre @ rest) = search_items (normalize_name tok) rest"
  using assms
  by (induction pre) (auto simp: key_matches_def find_value_in_obj_def)

text \<open>
  C1, as stated, fails: in \<^verbatim>\<open>{"Address": {"City": "inner"}, "City": "outer"}\<close> the node
  has the direct key \<^verbatim>\<open>City\<close>, yet the search for \<^verbatim>\<open>CITY\<close> returns the match inside
  the subtree of the earlier sibling \<^verbatim>\<open>Address\<close>. A search that checks all direct keys
  first returns \<^verbatim>\<open>"outer"\<close>.
\<close>

theorem find_value_in_obj_prefers_earlier_subtree:
  "find_value_in_obj
     (JObj [(''Address'', JObj [(''City'', JStr ''inner'')]), (''City'', JStr ''outer'')]) ''CITY''
     = Some ''inner''
   \<and> keys_first_search ''CITY''
       (JObj [(''Address'', JObj [(''City'', JStr ''inner'')]), (''City'', JStr ''outer'')])
     = Some ''outer''
   \<and> find_value_in_obj
       (JObj [(''Address'', JObj [(''City'', JStr ''inner'')]), (''City'', JStr ''outer'')]) ''CITY''
     \<noteq> keys_first_search ''CITY''
         (JObj [(''Address'', JObj [(''City'', JStr ''inner'')]), (''City'', JStr ''outer'')])"
  by code_simp

text \<open>
  C1 (amended). At an object node the entries are visited in iteration order, one at a
  time: the entry's key is checked and, when it matches, the extracted scalar of its value
  is returned without descending; otherwise the search descends into that entry's value
  before it looks at the next key, and goes on to the later entries only when nothing was
  found there. So after entries that neither match nor contain a match, the result is
  decided by the next entry: its own key first, then its subtree, then the later siblings;
  a match inside the subtree of an earlier sibling is returned in preference to a direct
  match of a later key.
\<close>

theorem find_value_in_obj_entry_order:
  assumes "list_all (\<lambda>kv. \<not> key_matches tok kv \<and> find_value_in_obj (snd kv) tok = None) pre"
  shows "find_value_in_obj (JObj (pre @ (k, v) # post)) tok =
           (if key_matches tok (k, v) then Some (extract_scalar_value v)
            else case find_value_in_obj v tok of
                   Some found \<Rightarrow> Some found
                 | None \<Rightarrow> find_value_in_obj (JObj post) tok)"
  using search_items_skip [OF assms]
  by (simp add: find_value_in_obj_def key_matches_def split: option.split)

text \<open>
  After the entry \<^verbatim>\<open>Role\<close>, the subtree of \<^verbatim>\<open>Address\<close> decides, before the later
  direct key \<^verbatim>\<open>City\<close>.
\<close>

theorem find_value_in_obj_entry_order_witness:
  "list_all (\<lambda>kv. \<not> key_matches ''CITY'' kv \<and> find_value_in_obj (snd kv) ''CITY'' = None)
     [(''Role'', JStr ''Owner'')]
   \<and> \<not> key_matches ''CITY'' (''Address'', JObj [(''City'', JStr ''inner'')])
   \<and> find_value_in_obj
       (JObj ([(''Role'', JStr ''Owner'')]
              @ (''Address'', JObj [(''City'', JStr ''inner'')]) # [(''City'', JStr ''outer'')]))
       ''CITY''
     = Some ''inner''"
proof -
  have h: "list_all (\<lambda>kv. \<not> key_matches ''CITY'' kv \<and> find_value_in_obj (snd kv) ''CITY'' = None)
     [(''Role'', JStr ''Owner'')]"
    by code_simp
  have k: "\<not> key_matches ''CITY'' (''Address'', JObj [(''City'', JStr ''inner'')])"
    by code_simp
  have v: "find_value_in_obj (JObj [(''City'', JStr ''inner'')]) ''CITY'' = Some ''inner''"
    by code_simp
  show ?thesis
    using h k v
      find_value_in_obj_entry_order
        [OF h, of "''Address''" "JObj [(''City'', JStr ''inner'')]" "[(''City'', JStr ''outer'')]"]
    by simp
qed

text \<open>
  C10. When the first entry, in depth-first pre-order, whose key matches the token has a
  value whose extracted scalar is the empty string, \<^verbatim>\<open>find_value_in_obj\<close> returns the
  empty string and looks no further, whatever later entries with the same normalized name
  hold; the caller's \<^verbatim>\<open>value if value is not None else ""\<close> then gives the same text as
  for a field that is absent.
\<close>

theorem find_value_in_obj_stops_at_empty_match:
  assumes "find (key_matches tok) (preorder_entries obj) = Some (k, v)"
    and "extract_scalar_value v = ''''"
  shows "find_value_in_obj obj tok = Some ''''
         \<and> or_empty (find_value_in_obj obj tok) = or_empty None"
  using assms by (simp add: find_value_in_obj_def search_preorder(1) or_empty_def)

text \<open>
  The first match \<^verbatim>\<open>Email\<close> is an empty list, the later key \<^verbatim>\<open>email\<close> holds a
  non-empty string: the search gives the empty string, and the token resolves to the same
  text as against a person that has no such field.
\<close>

theorem find_value_in_obj_stops_at_empty_match_witness:
  "find (key_matches ''EMAIL'')
     (preorder_entries
        (JObj [(''Role'', JStr ''Owner''), (''Contact'', JObj [(''Email'', JList [])]),
               (''email'', JStr ''a@b.c'')]))
     = Some (''Email'', JList [])
   \<and> extract_scalar_value (JList []) = ''''
   \<and> extract_scalar_value (JStr ''a@b.c'') = ''a@b.c''
   \<and> find_value_in_obj
        (JObj [(''Role'', JStr ''Owner''), (''Contact'', JObj [(''Email'', JList [])]),
               (''email'', JStr ''a@b.c'')]) ''EMAIL''
     = Some ''''
   \<and> resolve_variable ''PEOPLE_OWNER_EMAIL''
        (JObj [(''people'', JList
           [JObj [(''Role'', JStr ''Owner''), (''Contact'', JObj [(''Email'', JList [])]),
                  (''email'', JStr ''a@b.c'')]])])
     = Inr ''''
   \<and> resolve_variable ''PEOPLE_OWNER_EMAIL''
        (JObj [(''people'', JList [JObj [(''Role'', JStr ''Owner'')]])])
     = Inr ''''"
proof -
  have h1: "find (key_matches ''EMAIL'')
     (preorder_entries
        (JObj [(''Role'', JStr ''Owner''), (''Contact'', JObj [(''Email'', JList [])]),
               (''email'', JStr ''a@b.c'')]))
     = Some (''Email'', JList [])"
    by code_simp
  have h2: "extract_scalar_value (JList []) = ''''"
    by simp
  have h3: "extract_scalar_value (JStr ''a@b.c'') = ''a@b.c''"
    by (simp add: py_str_def)
  have h4: "resolve_variable ''PEOPLE_OWNER_EMAIL''
        (JObj [(''people'', JList
           [JObj [(''Role'', JStr ''Owner''), (''Contact'', JObj [(''Email'', JList [])]),
                  (''email'', JStr ''a@b.c'')]])])
     = Inr ''''"
    by code_simp
  have h5: "resolve_variable ''PEOPLE_OWNER_EMAIL''
        (JObj [(''people'', JList [JObj [(''Role'', JStr ''Owner'')]])])
     = Inr ''''"
    by code_simp
  show ?thesis
    using h1 h2 h3 h4 h5 find_value_in_obj_stops_at_empty_match [OF h1 h2]
    by simp
qed

end
